theory Spec2Isabelle
  imports Main "HOL-Library.AList" "HOL-Library.Word"
begin

section \<open>Python values\<close>

text \<open>
  The serializer walks a tree of Python objects and returns a tree of Python objects, so
  input and output share one type. A container that Python allocates on the heap carries
  the identity of that allocation: \<open>Src a\<close> is an object the caller already owns (at
  address \<open>a\<close>), \<open>Fresh\<close> is an object created during the conversion.

  A float is its IEEE-754 bit pattern; no arithmetic is done on it.

  An array is a built-in list, tuple or set, or an instance of a class that derives from
  list or from tuple (\<open>KListSub c\<close>, \<open>KTupleSub c\<close>); such a class can be a dataclass,
  so a value can be a record and a collection at once. The elements are listed in the
  order in which the object iterates; for a set this is the order of this one pass.
  The fields of an instance of such a class are not represented: \<open>convert\<close> tests for a
  collection before it reads any field.

  An enumeration member carries its class, whether that class mixes in \<open>int\<close>,
  \<open>float\<close> or \<open>str\<close> (as \<open>IntEnum\<close> does, so that the member is an instance of
  that type too), and its \<open>value\<close>. \<open>PObj\<close> is an instance of any other class with its
  attributes: a dataclass instance, or a scalar such as a decimal or a date.
\<close>

datatype ident = Src nat | Fresh

datatype array_kind = KList | KTuple | KSet | KListSub string | KTupleSub string

datatype pyval =
    PNone
  | PBool bool
  | PInt int
  | PFloat "64 word"
  | PStr string
  | PDict ident "(pyval \<times> pyval) list"
  | PArray ident array_kind "pyval list"
  | PEnum string bool pyval
  | PObj string "(string \<times> pyval) list"

datatype error =
    MetadataError string
  | AttributeError string string
  | UnknownTypeError string
  | TypeError string

text \<open>The fields of \<open>XmlVar\<close> that the serializer reads.\<close>

record xml_var =
  name :: string
  local_name :: string
  format :: "string option"

text \<open>The name of the runtime type, and the class of an instance of a user's class.\<close>

fun class_of :: "pyval \<Rightarrow> string" where
  "class_of PNone = ''NoneType''"
| "class_of (PBool b) = ''bool''"
| "class_of (PInt n) = ''int''"
| "class_of (PFloat x) = ''float''"
| "class_of (PStr t) = ''str''"
| "class_of (PDict i d) = ''dict''"
| "class_of (PArray i KList xs) = ''list''"
| "class_of (PArray i KTuple xs) = ''tuple''"
| "class_of (PArray i KSet xs) = ''set''"
| "class_of (PArray i (KListSub c) xs) = c"
| "class_of (PArray i (KTupleSub c) xs) = c"
| "class_of (PEnum c m v) = c"
| "class_of (PObj c attrs) = c"

fun user_class :: "pyval \<Rightarrow> string option" where
  "user_class (PObj c attrs) = Some c"
| "user_class (PArray i (KListSub c) xs) = Some c"
| "user_class (PArray i (KTupleSub c) xs) = Some c"
| "user_class v = None"

text \<open>
  Modelled from the spec: \<open>collections.is_array\<close> is not part of the sources at hand.
  A Collection Node is any repeating container of child nodes: an ordered sequence, an
  unordered set, a fixed-size tuple.
\<close>

fun is_array :: "pyval \<Rightarrow> bool" where
  "is_array (PArray i k xs) = True"
| "is_array v = False"

text \<open>
  Modelled from the spec: \<open>XmlContext\<close> (\<open>class_type.is_model\<close> and
  \<open>build(...).get_all_vars()\<close>) is not part of the sources at hand. The Metadata
  Provider maps a record type to its ordered field descriptors; a value is a Model Node
  when it is a record of a type the provider can describe, and asking for the descriptors
  of any other type fails with a metadata error.
\<close>

record xml_context =
  classes :: "(string \<times> xml_var list) list"

definition is_model :: "xml_context \<Rightarrow> pyval \<Rightarrow> bool" where
  "is_model ctx obj =
     (case user_class obj of Some c \<Rightarrow> map_of (classes ctx) c \<noteq> None | None \<Rightarrow> False)"

definition build :: "xml_context \<Rightarrow> pyval \<Rightarrow> error + xml_var list" where
  "build ctx obj =
     (case user_class obj of
        Some c \<Rightarrow>
          (case map_of (classes ctx) c of
             Some vars \<Rightarrow> Inr vars
           | None \<Rightarrow> Inl (MetadataError c))
      | None \<Rightarrow> Inl (MetadataError (class_of obj)))"

text \<open>\<open>getattr(obj, name)\<close>: the attribute, or an attribute error.\<close>

definition getattr :: "pyval \<Rightarrow> string \<Rightarrow> error + pyval" where
  "getattr obj n =
     (case obj of
        PObj c attrs \<Rightarrow>
          (case map_of attrs n of
             Some x \<Rightarrow> Inr x
           | None \<Rightarrow> Inl (AttributeError c n))
      | _ \<Rightarrow> Inl (AttributeError (class_of obj) n))"

text \<open>
  \<open>isinstance(obj, (dict, int, float, str, bool))\<close>, the test of the third branch, and
  \<open>isinstance(obj, Enum)\<close>, the test of the fourth. A member of a mix-in enumeration
  passes both.
\<close>

fun is_primitive :: "pyval \<Rightarrow> bool" where
  "is_primitive (PDict i d) = True"
| "is_primitive (PInt n) = True"
| "is_primitive (PFloat x) = True"
| "is_primitive (PStr t) = True"
| "is_primitive (PBool b) = True"
| "is_primitive (PEnum c m v) = m"
| "is_primitive v = False"

fun is_enum :: "pyval \<Rightarrow> bool" where
  "is_enum (PEnum c m v) = True"
| "is_enum v = False"

section \<open>Dictionary factories\<close>

text \<open>
  A Python \<open>dict\<close> keeps its keys in insertion order; storing under a key that is
  already present replaces the value and leaves the key where it is. Both \<open>dict(pairs)\<close>
  and a dict comprehension store the pairs from left to right.
\<close>

definition dict_items :: "(pyval \<times> pyval) list \<Rightarrow> (pyval \<times> pyval) list" where
  "dict_items ps = foldl (\<lambda>d (k, v). AList.update k v d) [] ps"

definition py_dict :: "(pyval \<times> pyval) list \<Rightarrow> pyval" where
  "py_dict ps = PDict Fresh (dict_items ps)"

definition filter_none :: "(pyval \<times> pyval) list \<Rightarrow> pyval" where
  "filter_none x = PDict Fresh (dict_items (filter (\<lambda>(k, v). v \<noteq> PNone) x))"

section \<open>The serializer\<close>

text \<open>
  \<open>JsonSerializer\<close>: the context, the dictionary factory, the dump factory and the
  indentation, and with them what \<open>convert\<close> reaches outside the class. The module-level
  \<open>converter\<close> (the value converter registry, not part of the sources at hand) is
  carried along as a parameter: \<open>converter s obj fmt\<close> is
  \<open>converter.serialize(obj, format=fmt)\<close>. So is the insertion of Python's \<open>set\<close>,
  which hashes and compares the elements by the methods of their classes:
  \<open>set_add s acc y\<close> is the set holding \<open>acc\<close> after \<open>y\<close> was added, or the
  \<open>TypeError\<close> of an unhashable \<open>y\<close>. The dump factory takes the tree, the stream's
  contents and the indentation, and returns the stream's new contents and the error it
  raised, if any.
\<close>

record json_serializer =
  xml_context :: xml_context
  dict_factory :: "(pyval \<times> pyval) list \<Rightarrow> pyval"
  dump_factory :: "pyval \<Rightarrow> string \<Rightarrow> int option \<Rightarrow> string \<times> error option"
  indent :: "int option"
  converter :: "pyval \<Rightarrow> string option \<Rightarrow> error + pyval"
  set_add :: "pyval list \<Rightarrow> pyval \<Rightarrow> error + pyval list"

lemma map_of_size_less:
  "map_of attrs n = Some x \<Longrightarrow> size x < Suc (size_list (size_prod f size) attrs)"
  by (induction attrs) (auto split: if_splits)

lemma getattr_size_less: "getattr obj n = Inr x \<Longrightarrow> size x < size obj"
  unfolding getattr_def
  by (cases obj) (auto split: option.splits dest: map_of_size_less)

text \<open>
  The identity of what \<open>type(obj)(...)\<close> returns for a list or a tuple: a new object,
  except that a tuple of no elements is the one empty tuple, which the caller's empty
  tuple is too.
\<close>

definition result_ident :: "ident \<Rightarrow> array_kind \<Rightarrow> pyval list \<Rightarrow> ident" where
  "result_ident i k ys = (if k = KTuple \<and> ys = [] then i else Fresh)"

text \<open>
  \<open>convert\<close>, with its comprehensions: \<open>convert_items\<close> over the elements of an array,
  all under one enclosing field; \<open>convert_set\<close> for \<open>set(... for v in obj)\<close>, which
  adds each converted element to the new set before the next one is converted;
  \<open>convert_vars\<close> over the descriptors of a record. An exception is a left value; a
  comprehension stops at the first one. A class that derives from list or tuple is taken
  to inherit the constructor of its base.
\<close>

function convert :: "json_serializer \<Rightarrow> pyval \<Rightarrow> xml_var option \<Rightarrow> error + pyval"
  and convert_items ::
    "json_serializer \<Rightarrow> pyval list \<Rightarrow> xml_var option \<Rightarrow> error + pyval list"
  and convert_set ::
    "json_serializer \<Rightarrow> pyval list \<Rightarrow> pyval list \<Rightarrow> xml_var option \<Rightarrow> error + pyval list"
  and convert_vars ::
    "json_serializer \<Rightarrow> pyval \<Rightarrow> xml_var list \<Rightarrow> error + (pyval \<times> pyval) list"
where
  "convert s obj var =
     (if var = None \<or> is_model (xml_context s) obj then
        (case obj of
           PArray i k xs \<Rightarrow>
             (case convert_items s xs None of
                Inl e \<Rightarrow> Inl e
              | Inr ys \<Rightarrow> Inr (PArray Fresh KList ys))
         | _ \<Rightarrow>
             (case build (xml_context s) obj of
                Inl e \<Rightarrow> Inl e
              | Inr vars \<Rightarrow>
                  (case convert_vars s obj vars of
                     Inl e \<Rightarrow> Inl e
                   | Inr ps \<Rightarrow> Inr (dict_factory s ps))))
      else
        (case obj of
           PArray i k xs \<Rightarrow>
             (if k = KSet then
                (case convert_set s [] xs var of
                   Inl e \<Rightarrow> Inl e
                 | Inr zs \<Rightarrow> Inr (PArray Fresh KSet zs))
              else
                (case convert_items s xs var of
                   Inl e \<Rightarrow> Inl e
                 | Inr ys \<Rightarrow> Inr (PArray (result_ident i k ys) k ys)))
         | _ \<Rightarrow>
             (if is_primitive obj then Inr obj
              else
                (case obj of
                   PEnum c m v \<Rightarrow> convert s v var
                 | _ \<Rightarrow>
                     (case var of
                        Some v \<Rightarrow> converter s obj (format v)
                      | None \<Rightarrow> Inl (AttributeError ''NoneType'' ''format''))))))"
| "convert_items s [] var = Inr []"
| "convert_items s (x # xs) var =
     (case convert s x var of
        Inl e \<Rightarrow> Inl e
      | Inr y \<Rightarrow>
          (case convert_items s xs var of
             Inl e \<Rightarrow> Inl e
           | Inr ys \<Rightarrow> Inr (y # ys)))"
| "convert_set s acc [] var = Inr acc"
| "convert_set s acc (x # xs) var =
     (case convert s x var of
        Inl e \<Rightarrow> Inl e
      | Inr y \<Rightarrow>
          (case set_add s acc y of
             Inl e \<Rightarrow> Inl e
           | Inr acc' \<Rightarrow> convert_set s acc' xs var))"
| "convert_vars s obj [] = Inr []"
| "convert_vars s obj (v # vs) =
     (case getattr obj (name v) of
        Inl e \<Rightarrow> Inl e
      | Inr x \<Rightarrow>
          (case convert s x (Some v) of
             Inl e \<Rightarrow> Inl e
           | Inr y \<Rightarrow>
               (case convert_vars s obj vs of
                  Inl e \<Rightarrow> Inl e
                | Inr ps \<Rightarrow> Inr ((PStr (local_name v), y) # ps))))"
  by pat_completeness auto
termination
  by (relation "inv_image (less_than <*lex*> less_than <*lex*> less_than)
        (\<lambda>c. case c of
           Inl (Inl (s, obj, var)) \<Rightarrow> (size obj, 1, 0)
         | Inl (Inr (s, xs, var)) \<Rightarrow> (size_list size xs, 0, 0)
         | Inr (Inl (s, acc, xs, var)) \<Rightarrow> (size_list size xs, 0, 0)
         | Inr (Inr (s, obj, vs)) \<Rightarrow> (size obj, 0, length vs))")
     (auto dest: getattr_size_less)

declare convert.simps(1) [simp del]

text \<open>
  \<open>write\<close> (here \<open>write_stream\<close>) converts first and hands the tree to the dump
  factory; \<open>render\<close> writes to an empty \<open>StringIO\<close> and returns its contents.
\<close>

definition write_stream :: "json_serializer \<Rightarrow> string \<Rightarrow> pyval \<Rightarrow> string \<times> error option" where
  "write_stream s out obj =
     (case convert s obj None of
        Inl e \<Rightarrow> (out, Some e)
      | Inr tree \<Rightarrow> dump_factory s tree out (indent s))"

definition render :: "json_serializer \<Rightarrow> pyval \<Rightarrow> error + string" where
  "render s obj =
     (case write_stream s [] obj of
        (out, None) \<Rightarrow> Inr out
      | (out, Some e) \<Rightarrow> Inl e)"

section \<open>A concrete serializer\<close>

text \<open>
  Descriptors and classes used to run the serializer: a point with two coordinates, a
  class whose element and attribute share the external name \<open>a\<close>, a record nested in
  another, and \<open>Bag\<close>, a dataclass without fields that derives from list. The registry
  of \<open>strict_converter\<close> maps \<open>None\<close> to \<open>None\<close> and knows no other type.
  \<open>demo_set_add\<close> refuses dicts, lists and sets and keeps one of two elements that are
  the same value, as Python does for texts.
\<close>

definition var_x :: xml_var where
  "var_x = \<lparr>name = ''x'', local_name = ''x'', format = None\<rparr>"

definition var_y :: xml_var where
  "var_y = \<lparr>name = ''y'', local_name = ''y'', format = None\<rparr>"

definition var_a :: xml_var where
  "var_a = \<lparr>name = ''a'', local_name = ''a'', format = None\<rparr>"

definition var_a_attribute :: xml_var where
  "var_a_attribute = \<lparr>name = ''a_attribute'', local_name = ''a'', format = None\<rparr>"

definition var_b :: xml_var where
  "var_b = \<lparr>name = ''b'', local_name = ''b'', format = None\<rparr>"

definition var_c :: xml_var where
  "var_c = \<lparr>name = ''c'', local_name = ''c'', format = None\<rparr>"

definition demo_context :: xml_context where
  "demo_context = \<lparr>classes =
     [(''Point'', [var_x, var_y]),
      (''Dup'', [var_a, var_a_attribute]),
      (''Outer'', [var_a, var_b]),
      (''Inner'', [var_c]),
      (''Bag'', [])]\<rparr>"

definition strict_converter :: "pyval \<Rightarrow> string option \<Rightarrow> error + pyval" where
  "strict_converter v fmt =
     (case v of PNone \<Rightarrow> Inr PNone | _ \<Rightarrow> Inl (UnknownTypeError (class_of v)))"

fun unhashable :: "pyval \<Rightarrow> bool" where
  "unhashable (PDict i d) = True"
| "unhashable (PArray i KList xs) = True"
| "unhashable (PArray i KSet xs) = True"
| "unhashable (PArray i (KListSub c) xs) = True"
| "unhashable v = False"

definition demo_set_add :: "pyval list \<Rightarrow> pyval \<Rightarrow> error + pyval list" where
  "demo_set_add acc y =
     (if unhashable y then Inl (TypeError (class_of y))
      else if y \<in> set acc then Inr acc
      else Inr (acc @ [y]))"

definition demo_serializer :: json_serializer where
  "demo_serializer =
     \<lparr>xml_context = demo_context, dict_factory = py_dict,
      dump_factory = (\<lambda>tree out i. (out, None)), indent = None,
      converter = strict_converter, set_add = demo_set_add\<rparr>"

definition omit_null_serializer :: json_serializer where
  "omit_null_serializer = demo_serializer\<lparr>dict_factory := filter_none\<rparr>"

lemmas demo_defs =
  demo_serializer_def omit_null_serializer_def demo_context_def strict_converter_def
  demo_set_add_def result_ident_def
  var_x_def var_y_def var_a_def var_a_attribute_def var_b_def var_c_def
  is_model_def build_def getattr_def py_dict_def filter_none_def dict_items_def

section \<open>Resolving the sources of the command line\<close>

text \<open>
  \<open>str.find\<close>: the lowest index at which \<open>sub\<close> occurs in the string, or \<open>-1\<close>;
  \<open>str.startswith\<close>.
\<close>

fun str_find :: "string \<Rightarrow> string \<Rightarrow> int" where
  "str_find [] sub = (if sub = [] then 0 else - 1)"
| "str_find (c # cs) sub =
     (if take (length sub) (c # cs) = sub then 0
      else (let r = str_find cs sub in if r = - 1 then - 1 else r + 1))"

definition startswith :: "string \<Rightarrow> string \<Rightarrow> bool" where
  "startswith s p = (take (length p) s = p)"

text \<open>
  What \<open>resolve_source\<close> asks of \<open>pathlib\<close>, over paths as strings:
  \<open>Path(source).resolve()\<close>, \<open>Path.is_dir\<close>, \<open>Path.glob\<close> (the matches in the
  order the file system lists them) and \<open>Path.as_uri\<close>.
\<close>

record file_system =
  path_resolve :: "string \<Rightarrow> string"
  path_is_dir :: "string \<Rightarrow> bool"
  path_glob :: "string \<Rightarrow> string \<Rightarrow> string list"
  path_as_uri :: "string \<Rightarrow> string"

text \<open>The generator \<open>resolve_source\<close>, as the list of what it yields.\<close>

definition resolve_source :: "file_system \<Rightarrow> string \<Rightarrow> string list" where
  "resolve_source fs source =
     (if str_find source ''://'' > - 1 \<and> \<not> startswith source ''file://'' then [source]
      else
        (let path = path_resolve fs source in
         if path_is_dir fs path then
           map (path_as_uri fs) (path_glob fs path ''*.wsdl'') @
           map (path_as_uri fs) (path_glob fs path ''*.xsd'') @
           map (path_as_uri fs) (path_glob fs path ''*.xml'') @
           map (path_as_uri fs) (path_glob fs path ''*.json'')
         else [path_as_uri fs path]))"

text \<open>A directory \<open>/w/schemas\<close> with four files, listed in alphabetical order.\<close>

definition demo_fs :: file_system where
  "demo_fs =
     \<lparr>path_resolve = (\<lambda>p. ''/w/'' @ p),
      path_is_dir = (\<lambda>p. p = ''/w/schemas''),
      path_glob = (\<lambda>p pat.
        if p \<noteq> ''/w/schemas'' then []
        else if pat = ''*.wsdl'' then [''/w/schemas/d.wsdl'']
        else if pat = ''*.xsd'' then [''/w/schemas/b.xsd'', ''/w/schemas/c.xsd'']
        else if pat = ''*.json'' then [''/w/schemas/a.json'']
        else []),
      path_as_uri = (\<lambda>p. ''file://'' @ p)\<rparr>"

section \<open>Failures and sharing\<close>

text \<open>
  Modelled from the spec: the Value Converter Registry behind \<open>converter.serialize\<close>
  is not part of the sources at hand. Given a value and a format hint it returns the
  primitive representation computed by the converter registered for the value's runtime
  type, and it fails with a distinguishable error when no converter is registered for
  that type. Null is returned as null.
\<close>

definition registry_serialize ::
  "(string \<times> (pyval \<Rightarrow> string option \<Rightarrow> pyval)) list \<Rightarrow> pyval \<Rightarrow> string option \<Rightarrow> error + pyval"
where
  "registry_serialize reg v fmt =
     (if v = PNone then Inr PNone
      else case map_of reg (class_of v) of
             None \<Rightarrow> Inl (UnknownTypeError (class_of v))
           | Some conv \<Rightarrow> Inr (conv v fmt))"

text \<open>
  \<open>subcall s obj var y w\<close>: the call \<open>convert(y, w)\<close> belongs to the recursion of
  \<open>convert(obj, var)\<close>; it is made unless an earlier step of the same comprehension
  has raised.
\<close>

inductive subcall ::
  "json_serializer \<Rightarrow> pyval \<Rightarrow> xml_var option \<Rightarrow> pyval \<Rightarrow> xml_var option \<Rightarrow> bool"
  for s :: json_serializer
where
  here: "subcall s obj var obj var"
| item_root:
    "var = None \<or> is_model (xml_context s) (PArray i k xs) \<Longrightarrow> x \<in> set xs \<Longrightarrow>
     subcall s x None y w \<Longrightarrow> subcall s (PArray i k xs) var y w"
| item_field:
    "\<not> is_model (xml_context s) (PArray i k xs) \<Longrightarrow> x \<in> set xs \<Longrightarrow>
     subcall s x (Some f) y w \<Longrightarrow> subcall s (PArray i k xs) (Some f) y w"
| field:
    "var = None \<or> is_model (xml_context s) obj \<Longrightarrow> \<not> is_array obj \<Longrightarrow>
     build (xml_context s) obj = Inr vars \<Longrightarrow>
     v \<in> set vars \<Longrightarrow> getattr obj (name v) = Inr x \<Longrightarrow>
     subcall s x (Some v) y w \<Longrightarrow> subcall s obj var y w"
| enum:
    "\<not> is_model (xml_context s) (PEnum c m v) \<Longrightarrow> \<not> is_primitive (PEnum c m v) \<Longrightarrow>
     subcall s v (Some f) y w \<Longrightarrow> subcall s (PEnum c m v) (Some f) y w"

text \<open>
  \<open>raises_here s obj var e\<close>: the call \<open>convert(obj, var)\<close> raises \<open>e\<close> in its own
  body, not in a recursive call: in the first branch when the Metadata Provider fails or
  an attribute is missing, in the second when the insertion into the new set fails, in
  the last one when the registry fails.
\<close>

definition raises_here :: "json_serializer \<Rightarrow> pyval \<Rightarrow> xml_var option \<Rightarrow> error \<Rightarrow> bool" where
  "raises_here s obj var e =
     (if var = None \<or> is_model (xml_context s) obj then
        \<not> is_array obj \<and>
        (case build (xml_context s) obj of
           Inl e' \<Rightarrow> e' = e
         | Inr vars \<Rightarrow> (\<exists>v\<in>set vars. getattr obj (name v) = Inl e))
      else if is_array obj then
        (\<exists>i xs. obj = PArray i KSet xs) \<and> (\<exists>acc y. set_add s acc y = Inl e)
      else
        \<not> is_primitive obj \<and> \<not> is_enum obj \<and>
        (case var of
           Some v \<Rightarrow> converter s obj (format v) = Inl e
         | None \<Rightarrow> False))"



section \<open>Dispatch\<close>

lemma is_model_builtin [simp]:
  "\<not> is_model ctx (PArray i KList xs)"
  "\<not> is_model ctx (PArray i KTuple xs)"
  "\<not> is_model ctx (PArray i KSet xs)"
  "\<not> is_model ctx (PEnum c m v)"
  "\<not> is_model ctx PNone"
  by (simp_all add: is_model_def)

lemma is_model_primitive: "is_primitive v \<Longrightarrow> \<not> is_model ctx v"
  by (cases v) (simp_all add: is_model_def)

lemma convert_array_step1:
  "var = None \<or> is_model (xml_context s) (PArray i k xs) \<Longrightarrow>
   convert s (PArray i k xs) var =
     (case convert_items s xs None of
        Inl e \<Rightarrow> Inl e
      | Inr ys \<Rightarrow> Inr (PArray Fresh KList ys))"
  by (simp add: convert.simps(1) [of s "PArray i k xs"])

lemma convert_array_field:
  "\<not> is_model (xml_context s) (PArray i k xs) \<Longrightarrow> k \<noteq> KSet \<Longrightarrow>
   convert s (PArray i k xs) (Some f) =
     (case convert_items s xs (Some f) of
        Inl e \<Rightarrow> Inl e
      | Inr ys \<Rightarrow> Inr (PArray (result_ident i k ys) k ys))"
  by (simp add: convert.simps(1) [of s "PArray i k xs"])

lemma convert_set_field:
  "convert s (PArray i KSet xs) (Some f) =
     (case convert_set s [] xs (Some f) of
        Inl e \<Rightarrow> Inl e
      | Inr zs \<Rightarrow> Inr (PArray Fresh KSet zs))"
  by (simp add: convert.simps(1) [of s "PArray i KSet xs"])

lemma convert_items_Inr_iff:
  "convert_items s xs w = Inr ys \<longleftrightarrow> list_all2 (\<lambda>x y. convert s x w = Inr y) xs ys"
proof (induction xs arbitrary: ys)
  case Nil
  then show ?case by auto
next
  case (Cons x xs)
  show ?case
  proof (cases ys)
    case Nil
    then show ?thesis by (auto split: sum.splits)
  next
    case (Cons y ys')
    then show ?thesis using Cons.IH [of ys']
      by (auto split: sum.splits)
  qed
qed

lemma convert_items_total:
  assumes "\<forall>x\<in>set xs. \<exists>y. convert s x w = Inr y"
  shows "\<exists>ys. convert_items s xs w = Inr ys"
  using assms by (induction xs) auto

lemma convert_items_nth:
  assumes "convert_items s xs w = Inr ys"
  shows "length ys = length xs \<and> (\<forall>j<length xs. convert s (xs ! j) w = Inr (ys ! j))"
  using assms by (simp add: convert_items_Inr_iff list_all2_conv_all_nth)


section \<open>Collections\<close>





text \<open>
  C6, as amended. When the first branch applies to a collection (no enclosing field, or a
  model node that is itself a collection) and its elements all convert with no enclosing
  field, the result is a new built-in list of the same length whose \<open>j\<close>-th element is
  the conversion of the \<open>j\<close>-th element with no enclosing field: the field of the call
  is not passed on. That is no change of field only when the call had none.
\<close>

theorem collection_step1:
  assumes "var = None \<or> is_model (xml_context s) (PArray i k xs)"
    and "\<forall>x\<in>set xs. \<exists>y. convert s x None = Inr y"
  shows "\<exists>ys. convert s (PArray i k xs) var = Inr (PArray Fresh KList ys) \<and>
           length ys = length xs \<and>
           (\<forall>j<length xs. convert s (xs ! j) None = Inr (ys ! j))"
proof -
  from convert_items_total [OF assms(2)] obtain ys
    where ys: "convert_items s xs None = Inr ys" by blast
  from convert_items_nth [OF ys] ys show ?thesis
    by (simp add: convert_array_step1 [OF assms(1)])
qed

theorem collection_step1_witness:
  "is_model (xml_context demo_serializer)
      (PArray (Src 1) (KListSub ''Bag'') [PObj ''Inner'' [(''c'', PInt 7)]]) \<and>
   (\<exists>y. convert demo_serializer (PObj ''Inner'' [(''c'', PInt 7)]) None = Inr y) \<and>
   convert demo_serializer
     (PArray (Src 1) (KListSub ''Bag'') [PObj ''Inner'' [(''c'', PInt 7)]]) (Some var_x) =
     Inr (PArray Fresh KList [PDict Fresh [(PStr ''c'', PInt 7)]]) \<and>
   convert demo_serializer (PArray (Src 1) KList [PObj ''Inner'' [(''c'', PInt 7)]]) None =
     Inr (PArray Fresh KList [PDict Fresh [(PStr ''c'', PInt 7)]])"
proof -
  let ?bag = "PArray (Src 1) (KListSub ''Bag'') [PObj ''Inner'' [(''c'', PInt 7)]]"
  have m: "is_model (xml_context demo_serializer) ?bag"
    by (simp add: demo_defs)
  have c: "convert demo_serializer (PObj ''Inner'' [(''c'', PInt 7)]) None =
      Inr (PDict Fresh [(PStr ''c'', PInt 7)])"
    by (simp add: convert.simps(1) demo_defs)
  then have h: "\<forall>x\<in>set [PObj ''Inner'' [(''c'', PInt 7)]]. \<exists>y. convert demo_serializer x None = Inr y"
    by simp
  have 1: "convert demo_serializer ?bag (Some var_x) =
     Inr (PArray Fresh KList [PDict Fresh [(PStr ''c'', PInt 7)]])"
    by (simp add: convert.simps(1) demo_defs)
  have 2: "convert demo_serializer (PArray (Src 1) KList [PObj ''Inner'' [(''c'', PInt 7)]]) None =
     Inr (PArray Fresh KList [PDict Fresh [(PStr ''c'', PInt 7)]])"
    by (simp add: convert.simps(1) demo_defs)
  have e: "\<exists>y. convert demo_serializer (PObj ''Inner'' [(''c'', PInt 7)]) None = Inr y"
    using c by simp
  note t = collection_step1 [of "Some var_x" demo_serializer "Src 1" "KListSub ''Bag''", OF disjI2 h, OF m]
  from t m e 1 2 show ?thesis by blast
qed

text \<open>
  C6 fails for a model node that is a collection, under a field: \<open>Bag\<close> is a dataclass
  deriving from list, and the tuple it holds is converted with no enclosing field, to a
  list; under the field of the call it would have become a tuple.
\<close>

theorem dropped_field_counterexample:
  "is_model (xml_context demo_serializer)
      (PArray (Src 1) (KListSub ''Bag'') [PArray (Src 2) KTuple [PObj ''Inner'' [(''c'', PInt 7)]]]) \<and>
   convert demo_serializer
     (PArray (Src 1) (KListSub ''Bag'') [PArray (Src 2) KTuple [PObj ''Inner'' [(''c'', PInt 7)]]])
     (Some var_x) =
     Inr (PArray Fresh KList [PArray Fresh KList [PDict Fresh [(PStr ''c'', PInt 7)]]]) \<and>
   convert demo_serializer (PArray (Src 2) KTuple [PObj ''Inner'' [(''c'', PInt 7)]]) (Some var_x) =
     Inr (PArray Fresh KTuple [PDict Fresh [(PStr ''c'', PInt 7)]]) \<and>
   convert demo_serializer (PArray (Src 2) KTuple [PObj ''Inner'' [(''c'', PInt 7)]]) None =
     Inr (PArray Fresh KList [PDict Fresh [(PStr ''c'', PInt 7)]])"
  by (simp add: convert.simps(1) demo_defs)



section \<open>Primitives and enumerations\<close>

text \<open>
  C2, as amended. Under any enclosing field \<open>f\<close>, a boolean, an integer, a float, a
  text or an existing map (any value that passes the \<open>isinstance\<close> test of the third
  branch) is returned as it is, the same object; \<open>None\<close> reaches the last branch and is
  returned as it is when the converter registry maps \<open>None\<close> to \<open>None\<close>.
\<close>

theorem primitive_identity:
  assumes "is_primitive v \<or> (v = PNone \<and> converter s PNone (format f) = Inr PNone)"
  shows "convert s v (Some f) = Inr v"
  using assms by (cases v) (simp_all add: convert.simps(1) is_model_def)

theorem primitive_identity_witness:
  "is_primitive (PInt 5) \<and> convert demo_serializer (PInt 5) (Some var_x) = Inr (PInt 5) \<and>
   converter demo_serializer PNone (format var_x) = Inr PNone \<and>
   convert demo_serializer PNone (Some var_x) = Inr PNone"
proof -
  have a: "is_primitive (PInt 5)" by simp
  have b: "converter demo_serializer PNone (format var_x) = Inr PNone"
    by (simp add: demo_defs)
  show ?thesis
    using a b primitive_identity [of "PInt 5" demo_serializer var_x]
      primitive_identity [of PNone demo_serializer var_x]
    by simp
qed

text \<open>
  C2 fails with no enclosing field: the integer \<open>5\<close> at the root is taken for a
  record, and the Metadata Provider cannot describe \<open>int\<close>.
\<close>

theorem primitive_root_counterexample:
  "convert demo_serializer (PInt 5) None = Inl (MetadataError ''int'') \<and>
   convert demo_serializer (PInt 5) None \<noteq> Inr (PInt 5)"
  by (simp add: convert.simps(1) demo_defs)

text \<open>
  C5, as amended. Under any enclosing field \<open>f\<close>, converting a member of a plain
  enumeration (no \<open>int\<close>, \<open>float\<close> or \<open>str\<close> mix-in) is converting its underlying
  value under the same field: one indirection. A member of a mix-in enumeration passes
  the \<open>isinstance\<close> test of the third branch, which comes first, and is returned as it
  is. With no enclosing field no member is unwrapped: the first branch takes it for a
  record, and the Metadata Provider cannot describe an enumeration class.
\<close>

theorem enum_transparency:
  "convert s (PEnum c False v) (Some f) = convert s v (Some f) \<and>
   convert s (PEnum c True v) (Some f) = Inr (PEnum c True v) \<and>
   convert s (PEnum c m v) None = Inl (MetadataError c)"
  by (simp add: convert.simps(1) [of s "PEnum c False v"] convert.simps(1) [of s "PEnum c True v"]
      convert.simps(1) [of s "PEnum c m v"] build_def)

theorem enum_transparency_witness:
  "convert demo_serializer (PEnum ''Color'' False (PStr ''A'')) (Some var_x) = Inr (PStr ''A'') \<and>
   convert demo_serializer (PEnum ''IntColor'' True (PInt 1)) (Some var_x) =
     Inr (PEnum ''IntColor'' True (PInt 1)) \<and>
   convert demo_serializer (PEnum ''Color'' False (PStr ''A'')) None = Inl (MetadataError ''Color'')"
proof -
  have "convert demo_serializer (PStr ''A'') (Some var_x) = Inr (PStr ''A'')"
    by (simp add: convert.simps(1) demo_defs)
  with enum_transparency [of demo_serializer "''Color''" "PStr ''A''" var_x False]
    enum_transparency [of demo_serializer "''IntColor''" "PInt 1" var_x True]
  show ?thesis by simp
qed

text \<open>
  C5 fails with no enclosing field: a member whose value is the empty tuple raises a
  metadata error for its class, while its value converts to the empty list. It fails
  under a field for a member of a mix-in enumeration: the member of an \<open>IntEnum\<close> is
  returned, not the integer that is its value.
\<close>

theorem enum_root_counterexample:
  "convert demo_serializer (PEnum ''E'' False (PArray (Src 0) KTuple [])) None =
     Inl (MetadataError ''E'') \<and>
   convert demo_serializer (PArray (Src 0) KTuple []) None = Inr (PArray Fresh KList []) \<and>
   convert demo_serializer (PEnum ''IntColor'' True (PInt 1)) (Some var_x) =
     Inr (PEnum ''IntColor'' True (PInt 1)) \<and>
   convert demo_serializer (PInt 1) (Some var_x) = Inr (PInt 1)"
  by (simp add: convert.simps(1) demo_defs)

section \<open>Records\<close>

lemma is_model_iff_build: "is_model ctx obj \<longleftrightarrow> (\<exists>vars. build ctx obj = Inr vars)"
  by (auto simp: is_model_def build_def split: option.splits)

lemma getattr_not_array: "getattr obj n = Inr x \<Longrightarrow> \<not> is_array obj"
  by (cases obj) (auto simp: getattr_def)

lemma convert_record:
  assumes "build (xml_context s) obj = Inr vars" and "\<not> is_array obj"
  shows "convert s obj var =
     (case convert_vars s obj vars of
        Inl e \<Rightarrow> Inl e
      | Inr ps \<Rightarrow> Inr (dict_factory s ps))"
proof -
  from assms(1) have "is_model (xml_context s) obj" by (auto simp: is_model_iff_build)
  with assms show ?thesis by (cases obj) (simp_all add: convert.simps(1))
qed

lemma convert_vars_Inr_iff:
  "convert_vars s obj vars = Inr ps \<longleftrightarrow>
     list_all2 (\<lambda>v p. fst p = PStr (local_name v) \<and>
        (\<exists>x. getattr obj (name v) = Inr x \<and> convert s x (Some v) = Inr (snd p))) vars ps"
proof (induction vars arbitrary: ps)
  case Nil
  then show ?case by auto
next
  case (Cons v vs)
  show ?case
  proof (cases ps)
    case Nil
    then show ?thesis by (auto split: sum.splits)
  next
    case (Cons p ps')
    then show ?thesis using Cons.IH [of ps']
      by (cases p) (auto split: sum.splits)
  qed
qed

lemma convert_vars_total:
  assumes "\<forall>v\<in>set vars. \<exists>x y. getattr obj (name v) = Inr x \<and> convert s x (Some v) = Inr y"
  shows "\<exists>ps. convert_vars s obj vars = Inr ps"
  using assms by (induction vars) auto

lemma convert_vars_keys:
  "convert_vars s obj vars = Inr ps \<Longrightarrow> map fst ps = map (\<lambda>v. PStr (local_name v)) vars"
  by (induction vars arbitrary: ps) (auto split: sum.splits)

lemma update_fresh_key:
  "k \<notin> fst ` set d \<Longrightarrow> AList.update k v d = d @ [(k, v)]"
  by (induction d) auto

lemma foldl_update_distinct:
  "distinct (map fst (d @ ps)) \<Longrightarrow>
     foldl (\<lambda>d (k, v). AList.update k v d) d ps = d @ ps"
proof (induction ps arbitrary: d)
  case Nil
  then show ?case by simp
next
  case (Cons p ps)
  obtain k v where p: "p = (k, v)" by (cases p)
  from Cons.prems p have "k \<notin> fst ` set d" by auto
  then have u: "AList.update k v d = d @ [(k, v)]" by (rule update_fresh_key)
  from Cons.prems p have "distinct (map fst ((d @ [(k, v)]) @ ps))" by simp
  from Cons.IH [OF this] u p show ?case by simp
qed

lemma dict_items_distinct: "distinct (map fst ps) \<Longrightarrow> dict_items ps = ps"
  using foldl_update_distinct [of "[]" ps] by (simp add: dict_items_def)

lemma distinct_keys:
  "distinct (map local_name vars) \<Longrightarrow> distinct (map (\<lambda>v. PStr (local_name v)) vars)"
  by (simp add: distinct_map inj_on_def comp_def) 

text \<open>
  C1, as amended. For a record whose type the Metadata Provider describes, that is not
  itself a collection, whose descriptors have pairwise distinct external names and whose
  fields all convert, the
  default dictionary factory returns a new map whose keys are the external names in the
  declared order, the \<open>j\<close>-th value being the conversion of the \<open>j\<close>-th field's value
  under the \<open>j\<close>-th descriptor. This holds under any enclosing field and with none.
\<close>

theorem record_conversion:
  assumes "build (xml_context s) obj = Inr vars"
    and "\<not> is_array obj"
    and "dict_factory s = py_dict"
    and "distinct (map local_name vars)"
    and "\<forall>v\<in>set vars. \<exists>x y. getattr obj (name v) = Inr x \<and> convert s x (Some v) = Inr y"
  shows "\<exists>ys. convert s obj var =
             Inr (PDict Fresh (zip (map (\<lambda>v. PStr (local_name v)) vars) ys)) \<and>
           length ys = length vars \<and>
           (\<forall>j<length vars. \<exists>x. getattr obj (name (vars ! j)) = Inr x \<and>
              convert s x (Some (vars ! j)) = Inr (ys ! j))"
proof -
  from convert_vars_total [OF assms(5)] obtain ps
    where ps: "convert_vars s obj vars = Inr ps" by blast
  have keys: "map fst ps = map (\<lambda>v. PStr (local_name v)) vars"
    using ps by (rule convert_vars_keys)
  with assms(4) have "distinct (map fst ps)" by (simp add: distinct_keys)
  then have d: "dict_items ps = ps" by (rule dict_items_distinct)
  have z: "ps = zip (map (\<lambda>v. PStr (local_name v)) vars) (map snd ps)"
    using keys by (metis zip_map_fst_snd)
  have c: "convert s obj var = Inr (PDict Fresh ps)"
    using convert_record [OF assms(1,2), of var] ps d assms(3) by (simp add: py_dict_def)
  from ps have l: "list_all2 (\<lambda>v p. fst p = PStr (local_name v) \<and>
        (\<exists>x. getattr obj (name v) = Inr x \<and> convert s x (Some v) = Inr (snd p))) vars ps"
    by (simp add: convert_vars_Inr_iff)
  then have len: "length (map snd ps) = length vars"
    by (simp add: list_all2_lengthD)
  have nth: "\<forall>j<length vars. \<exists>x. getattr obj (name (vars ! j)) = Inr x \<and>
              convert s x (Some (vars ! j)) = Inr (map snd ps ! j)"
    using l by (auto simp: list_all2_conv_all_nth)
  from c z len nth show ?thesis by metis
qed


theorem record_conversion_witness:
  "build (xml_context demo_serializer) (PObj ''Point'' [(''x'', PInt 1), (''y'', PInt 2)]) =
     Inr [var_x, var_y] \<and>
   \<not> is_array (PObj ''Point'' [(''x'', PInt 1), (''y'', PInt 2)]) \<and>
   dict_factory demo_serializer = py_dict \<and>
   distinct (map local_name [var_x, var_y]) \<and>
   (\<exists>ys. convert demo_serializer (PObj ''Point'' [(''x'', PInt 1), (''y'', PInt 2)]) None =
      Inr (PDict Fresh (zip [PStr ''x'', PStr ''y''] ys)) \<and> length ys = 2) \<and>
   convert demo_serializer (PObj ''Point'' [(''x'', PInt 1), (''y'', PInt 2)]) None =
     Inr (PDict Fresh [(PStr ''x'', PInt 1), (PStr ''y'', PInt 2)])"
proof -
  let ?p = "PObj ''Point'' [(''x'', PInt 1), (''y'', PInt 2)]"
  have b: "build (xml_context demo_serializer) ?p = Inr [var_x, var_y]"
    by (simp add: demo_defs)
  have f: "dict_factory demo_serializer = py_dict"
    by (simp add: demo_serializer_def)
  have d: "distinct (map local_name [var_x, var_y])"
    by (simp add: var_x_def var_y_def)
  have h: "\<forall>v\<in>set [var_x, var_y]. \<exists>x y. getattr ?p (name v) = Inr x \<and>
      convert demo_serializer x (Some v) = Inr y"
    by (simp add: convert.simps(1) demo_defs)
  have c: "convert demo_serializer ?p None =
     Inr (PDict Fresh [(PStr ''x'', PInt 1), (PStr ''y'', PInt 2)])"
    by (simp add: convert.simps(1) demo_defs)
  have na: "\<not> is_array ?p" by simp
  from record_conversion [OF b na f d h, of None] obtain ys where
    "convert demo_serializer ?p None =
       Inr (PDict Fresh (zip (map (\<lambda>v. PStr (local_name v)) [var_x, var_y]) ys))"
    "length ys = length [var_x, var_y]" by blast
  then have "\<exists>ys. convert demo_serializer ?p None =
      Inr (PDict Fresh (zip [PStr ''x'', PStr ''y''] ys)) \<and> length ys = 2"
    by (auto simp: var_x_def var_y_def)
  with b na f d c show ?thesis by blast
qed

text \<open>
  C1 fails when two descriptors share an external name (an element and an attribute both
  called \<open>a\<close>): \<open>dict\<close> keeps one key, with the value of the later field. It
  fails too for an instance of a described class that derives from list: the collection
  test comes first and the result is a list, not a map.
\<close>

theorem duplicate_names_counterexample:
  "build (xml_context demo_serializer) (PObj ''Dup'' [(''a'', PInt 1), (''a_attribute'', PInt 2)]) =
     Inr [var_a, var_a_attribute] \<and>
   map local_name [var_a, var_a_attribute] = [''a'', ''a''] \<and>
   convert demo_serializer (PObj ''Dup'' [(''a'', PInt 1), (''a_attribute'', PInt 2)]) None =
     Inr (PDict Fresh [(PStr ''a'', PInt 2)]) \<and>
   build (xml_context demo_serializer) (PArray (Src 2) (KListSub ''Bag'') []) = Inr [] \<and>
   convert demo_serializer (PArray (Src 2) (KListSub ''Bag'') []) None =
     Inr (PArray Fresh KList [])"
  by (simp add: convert.simps(1) demo_defs)

lemma convert_none_field: "convert s PNone (Some f) = converter s PNone (format f)"
  by (simp add: convert.simps(1))

lemma convert_vars_null_pair:
  assumes "convert_vars s obj vars = Inr ps"
    and "v \<in> set vars"
    and "getattr obj (name v) = Inr PNone"
    and "converter s PNone (format v) = Inr PNone"
  shows "(PStr (local_name v), PNone) \<in> set ps"
  using assms
proof (induction vars arbitrary: ps)
  case Nil
  then show ?case by simp
next
  case (Cons u us)
  then show ?case
    by (auto split: sum.splits simp: convert_none_field)
qed

lemma distinct_key_absent:
  assumes "distinct (map fst ps)" and "(k, PNone) \<in> set ps"
  shows "k \<notin> fst ` set (filter (\<lambda>(k, y). y \<noteq> PNone) ps)"
proof
  assume "k \<in> fst ` set (filter (\<lambda>(k, y). y \<noteq> PNone) ps)"
  then obtain y where y: "(k, y) \<in> set ps" "y \<noteq> PNone" by auto
  from assms(1) have "inj_on fst (set ps)" by (simp add: distinct_map)
  from inj_onD [OF this, of "(k, y)" "(k, PNone)"] assms(2) y(1)
  have "(k, y) = (k, PNone)" by simp
  with y(2) show False by simp
qed

text \<open>
  C3, as amended. Let the fields of a described record, with pairwise distinct external
  names, convert to the pairs \<open>ps\<close>, and let one field hold \<open>None\<close>, which the
  converter registry maps to \<open>None\<close>. The keys of \<open>ps\<close> are the external names in
  declared order. The default factory returns the map of all of \<open>ps\<close>, which pairs that
  field's external name with \<open>None\<close>. \<open>filter_none\<close> returns the pairs of \<open>ps\<close>
  whose value is not \<open>None\<close>, in their order, and that field's name is not among the
  keys. The pairs \<open>ps\<close> are converted under the serializer's own factory, so a nested
  record loses its \<open>None\<close> entries as well.
\<close>

theorem null_policy:
  assumes "build (xml_context s) obj = Inr vars"
    and "distinct (map local_name vars)"
    and "convert_vars s obj vars = Inr ps"
    and "v \<in> set vars"
    and "getattr obj (name v) = Inr PNone"
    and "converter s PNone (format v) = Inr PNone"
  shows "map fst ps = map (\<lambda>v. PStr (local_name v)) vars \<and>
         (dict_factory s = py_dict \<longrightarrow>
            convert s obj var = Inr (PDict Fresh ps) \<and>
            (PStr (local_name v), PNone) \<in> set ps) \<and>
         (dict_factory s = filter_none \<longrightarrow>
            convert s obj var = Inr (PDict Fresh (filter (\<lambda>(k, y). y \<noteq> PNone) ps)) \<and>
            PStr (local_name v) \<notin> fst ` set (filter (\<lambda>(k, y). y \<noteq> PNone) ps))"
proof -
  have keys: "map fst ps = map (\<lambda>v. PStr (local_name v)) vars"
    using assms(3) by (rule convert_vars_keys)
  with assms(2) have dist: "distinct (map fst ps)" by (simp add: distinct_keys)
  have mem: "(PStr (local_name v), PNone) \<in> set ps"
    using assms(3,4,5,6) by (rule convert_vars_null_pair)
  have c: "convert s obj var = Inr (dict_factory s ps)"
    using convert_record [OF assms(1) getattr_not_array [OF assms(5)], of var] assms(3) by simp
  have d1: "dict_items ps = ps" using dist by (rule dict_items_distinct)
  have "distinct (map fst (filter (\<lambda>(k, y). y \<noteq> PNone) ps))"
    using dist by (rule distinct_map_filter)
  then have d2: "dict_items (filter (\<lambda>(k, y). y \<noteq> PNone) ps) = filter (\<lambda>(k, y). y \<noteq> PNone) ps"
    by (rule dict_items_distinct)
  have ab: "PStr (local_name v) \<notin> fst ` set (filter (\<lambda>(k, y). y \<noteq> PNone) ps)"
    using dist mem by (rule distinct_key_absent)
  from keys c d1 d2 mem ab show ?thesis
    by (simp add: py_dict_def filter_none_def)
qed

theorem null_policy_witness:
  "build (xml_context demo_serializer) (PObj ''Point'' [(''x'', PInt 1), (''y'', PNone)]) =
     Inr [var_x, var_y] \<and>
   distinct (map local_name [var_x, var_y]) \<and>
   var_y \<in> set [var_x, var_y] \<and>
   getattr (PObj ''Point'' [(''x'', PInt 1), (''y'', PNone)]) (name var_y) = Inr PNone \<and>
   converter demo_serializer PNone (format var_y) = Inr PNone \<and>
   convert demo_serializer (PObj ''Point'' [(''x'', PInt 1), (''y'', PNone)]) None =
     Inr (PDict Fresh [(PStr ''x'', PInt 1), (PStr ''y'', PNone)]) \<and>
   convert omit_null_serializer (PObj ''Point'' [(''x'', PInt 1), (''y'', PNone)]) None =
     Inr (PDict Fresh [(PStr ''x'', PInt 1)])"
proof -
  let ?p = "PObj ''Point'' [(''x'', PInt 1), (''y'', PNone)]"
  let ?ps = "[(PStr ''x'', PInt 1), (PStr ''y'', PNone)]"
  have b: "build (xml_context demo_serializer) ?p = Inr [var_x, var_y]"
    by (simp add: demo_defs)
  have b': "build (xml_context omit_null_serializer) ?p = Inr [var_x, var_y]"
    by (simp add: demo_defs)
  have d: "distinct (map local_name [var_x, var_y])"
    by (simp add: var_x_def var_y_def)
  have m: "var_y \<in> set [var_x, var_y]" by simp
  have g: "getattr ?p (name var_y) = Inr PNone" by (simp add: demo_defs)
  have r: "converter demo_serializer PNone (format var_y) = Inr PNone"
    by (simp add: demo_defs)
  have r': "converter omit_null_serializer PNone (format var_y) = Inr PNone"
    by (simp add: demo_defs)
  have p: "convert_vars demo_serializer ?p [var_x, var_y] = Inr ?ps"
    by (simp add: convert.simps(1) demo_defs)
  have p': "convert_vars omit_null_serializer ?p [var_x, var_y] = Inr ?ps"
    by (simp add: convert.simps(1) demo_defs)
  have f: "dict_factory demo_serializer = py_dict" by (simp add: demo_defs)
  have f': "dict_factory omit_null_serializer = filter_none" by (simp add: demo_defs)
  from null_policy [OF b d p m g r, of None] f
  have 1: "convert demo_serializer ?p None = Inr (PDict Fresh ?ps)" by blast
  from null_policy [OF b' d p' m g r', of None] f'
  have 2: "convert omit_null_serializer ?p None =
      Inr (PDict Fresh (filter (\<lambda>(k, y). y \<noteq> PNone) ?ps))" by blast
  then have 3: "convert omit_null_serializer ?p None = Inr (PDict Fresh [(PStr ''x'', PInt 1)])"
    by simp
  from b d m g r 1 3 show ?thesis by blast
qed

text \<open>
  C3 fails in two ways. A nested record is converted with the same factory, so under
  \<open>filter_none\<close> the entry \<open>b\<close> of the outer record is not what it is under the
  default factory. And when a later field shares the external name of the field holding
  \<open>None\<close>, the default factory's map has no entry pairing that name with \<open>None\<close>.
\<close>

theorem null_policy_counterexample:
  "convert demo_serializer
     (PObj ''Outer'' [(''a'', PNone), (''b'', PObj ''Inner'' [(''c'', PNone)])]) None =
     Inr (PDict Fresh [(PStr ''a'', PNone), (PStr ''b'', PDict Fresh [(PStr ''c'', PNone)])]) \<and>
   convert omit_null_serializer
     (PObj ''Outer'' [(''a'', PNone), (''b'', PObj ''Inner'' [(''c'', PNone)])]) None =
     Inr (PDict Fresh [(PStr ''b'', PDict Fresh [])]) \<and>
   convert demo_serializer (PObj ''Dup'' [(''a'', PNone), (''a_attribute'', PInt 2)]) None =
     Inr (PDict Fresh [(PStr ''a'', PInt 2)])"
  by (simp add: convert.simps(1) demo_defs)

section \<open>Resolving sources\<close>

lemma str_find_ge: "str_find s sub \<ge> - 1"
  by (induction s) (auto simp: Let_def)

lemma take_eq_iff_prefix: "take (length p) s = p \<longleftrightarrow> (\<exists>r. s = p @ r)"
proof
  assume "take (length p) s = p"
  then have "s = p @ drop (length p) s" by (metis append_take_drop_id)
  then show "\<exists>r. s = p @ r" ..
next
  assume "\<exists>r. s = p @ r"
  then show "take (length p) s = p" by auto
qed

lemma startswith_iff: "startswith s p \<longleftrightarrow> (\<exists>r. s = p @ r)"
  by (simp add: startswith_def take_eq_iff_prefix)

lemma occurs_Cons:
  "(\<exists>p q. c # cs = p @ sub @ q) \<longleftrightarrow> (\<exists>r. c # cs = sub @ r) \<or> (\<exists>p q. cs = p @ sub @ q)"
proof
  assume "\<exists>p q. c # cs = p @ sub @ q"
  then obtain p q where e: "c # cs = p @ sub @ q" by blast
  show "(\<exists>r. c # cs = sub @ r) \<or> (\<exists>p q. cs = p @ sub @ q)"
  proof (cases p)
    case Nil
    with e show ?thesis by auto
  next
    case (Cons a p')
    with e have "cs = p' @ sub @ q" by simp
    then show ?thesis by blast
  qed
next
  assume "(\<exists>r. c # cs = sub @ r) \<or> (\<exists>p q. cs = p @ sub @ q)"
  then show "\<exists>p q. c # cs = p @ sub @ q"
  proof
    assume "\<exists>r. c # cs = sub @ r"
    then obtain r where "c # cs = [] @ sub @ r" by auto
    then show ?thesis by blast
  next
    assume "\<exists>p q. cs = p @ sub @ q"
    then obtain p q where "cs = p @ sub @ q" by blast
    then have "c # cs = (c # p) @ sub @ q" by simp
    then show ?thesis by blast
  qed
qed

lemma str_find_found_iff: "str_find s sub > - 1 \<longleftrightarrow> (\<exists>p q. s = p @ sub @ q)"
proof (induction s)
  case Nil
  then show ?case by auto
next
  case (Cons c cs)
  have g: "str_find cs sub \<ge> - 1" by (rule str_find_ge)
  show ?case
  proof (cases "take (length sub) (c # cs) = sub")
    case True
    then have "\<exists>r. c # cs = sub @ r"
      using take_eq_iff_prefix [of sub "c # cs"] by blast
    then have "\<exists>p q. c # cs = p @ sub @ q"
      using occurs_Cons [of c cs sub] by blast
    moreover from True have "str_find (c # cs) sub = 0" by simp
    ultimately show ?thesis by simp
  next
    case False
    then have n: "\<not> (\<exists>r. c # cs = sub @ r)"
      using take_eq_iff_prefix [of sub "c # cs"] by blast
    from False have "str_find (c # cs) sub > - 1 \<longleftrightarrow> str_find cs sub \<noteq> - 1"
      using g by (auto simp: Let_def)
    also have "\<dots> \<longleftrightarrow> str_find cs sub > - 1" using g by auto
    also have "\<dots> \<longleftrightarrow> (\<exists>p q. cs = p @ sub @ q)" by (rule Cons.IH)
    also have "\<dots> \<longleftrightarrow> (\<exists>p q. c # cs = p @ sub @ q)"
      using n occurs_Cons [of c cs sub] by blast
    finally show ?thesis .
  qed
qed

text \<open>
  C10. \<open>resolve_source\<close> yields the source itself, alone, exactly when \<open>://\<close> occurs
  in it and it does not start with \<open>file://\<close>. Otherwise the path is resolved; for a
  directory the URIs of the matches of \<open>*.wsdl\<close>, then \<open>*.xsd\<close>, then \<open>*.xml\<close>,
  then \<open>*.json\<close> are yielded, and for any other path the URI of that path alone.
\<close>

theorem resolve_source_cases:
  "resolve_source fs source =
     (if (\<exists>p q. source = p @ ''://'' @ q) \<and> \<not> (\<exists>r. source = ''file://'' @ r) then [source]
      else if path_is_dir fs (path_resolve fs source) then
        concat (map (\<lambda>pat. map (path_as_uri fs) (path_glob fs (path_resolve fs source) pat))
          [''*.wsdl'', ''*.xsd'', ''*.xml'', ''*.json''])
      else [path_as_uri fs (path_resolve fs source)])"
  unfolding resolve_source_def str_find_found_iff startswith_iff
  by (simp add: Let_def)

lemma demo_found: "\<exists>p q. ''http://host/a.xsd'' = p @ ''://'' @ q"
proof -
  have "''http://host/a.xsd'' = ''http'' @ ''://'' @ ''host/a.xsd''" by simp
  then show ?thesis by blast
qed

lemma demo_not_found: "\<not> (\<exists>p q. ''schemas'' = p @ ''://'' @ q)"
  using str_find_found_iff [of "''schemas''" "''://''"] by simp

theorem resolve_source_cases_witness:
  "resolve_source demo_fs ''http://host/a.xsd'' = [''http://host/a.xsd''] \<and>
   resolve_source demo_fs ''schemas'' =
     [''file:///w/schemas/d.wsdl'', ''file:///w/schemas/b.xsd'', ''file:///w/schemas/c.xsd'',
      ''file:///w/schemas/a.json''] \<and>
   resolve_source demo_fs ''file://a.xsd'' = [''file:///w/file://a.xsd'']"
proof -
  have f: "\<exists>r. ''file://a.xsd'' = ''file://'' @ r" by simp
  have 3: "resolve_source demo_fs ''file://a.xsd'' = [''file:///w/file://a.xsd'']"
    using resolve_source_cases [of demo_fs "''file://a.xsd''"] f
    by (simp add: demo_fs_def)
  have n: "\<not> (\<exists>r. ''http://host/a.xsd'' = ''file://'' @ r)" by simp
  have 1: "resolve_source demo_fs ''http://host/a.xsd'' = [''http://host/a.xsd'']"
    using resolve_source_cases [of demo_fs "''http://host/a.xsd''"] demo_found n
    by (simp only: simp_thms if_True)
  have 2: "resolve_source demo_fs ''schemas'' =
     [''file:///w/schemas/d.wsdl'', ''file:///w/schemas/b.xsd'', ''file:///w/schemas/c.xsd'',
      ''file:///w/schemas/a.json'']"
    using resolve_source_cases [of demo_fs "''schemas''"] demo_not_found
    by (simp add: demo_fs_def)
  from 1 2 3 show ?thesis by simp
qed

section \<open>Errors and object identity\<close>

lemma convert_enum_field: "convert s (PEnum c False v) (Some f) = convert s v (Some f)"
  by (simp add: convert.simps(1) [of s "PEnum c False v"])

lemma convert_items_fail:
  "x \<in> set xs \<Longrightarrow> convert s x w = Inl e \<Longrightarrow> \<exists>e'. convert_items s xs w = Inl e'"
  by (induction xs) (auto split: sum.splits)

lemma convert_vars_fail:
  "v \<in> set vars \<Longrightarrow> getattr obj (name v) = Inr x \<Longrightarrow> convert s x (Some v) = Inl e \<Longrightarrow>
     \<exists>e'. convert_vars s obj vars = Inl e'"
  by (induction vars) (auto split: sum.splits)

lemma convert_items_Inl_origin:
  "convert_items s xs w = Inl e \<Longrightarrow> \<exists>x\<in>set xs. convert s x w = Inl e"
  by (induction xs) (auto split: sum.splits)

lemma convert_vars_Inl_origin:
  "convert_vars s obj vars = Inl e \<Longrightarrow>
     (\<exists>v\<in>set vars. getattr obj (name v) = Inl e) \<or>
     (\<exists>v\<in>set vars. \<exists>x. getattr obj (name v) = Inr x \<and> convert s x (Some v) = Inl e)"
  by (induction vars) (auto split: sum.splits)

lemma convert_set_fail:
  "x \<in> set xs \<Longrightarrow> convert s x w = Inl e \<Longrightarrow> \<exists>e'. convert_set s acc xs w = Inl e'"
proof (induction xs arbitrary: acc)
  case Nil
  then show ?case by simp
next
  case (Cons a xs)
  show ?case
  proof (cases "convert s a w")
    case (Inl e1)
    then show ?thesis by simp
  next
    case y: (Inr y)
    show ?thesis
    proof (cases "set_add s acc y")
      case (Inl e2)
      with y show ?thesis by simp
    next
      case (Inr acc')
      from Cons.prems y have "x \<in> set xs" by auto
      from Cons.IH [OF this Cons.prems(2), of acc'] y Inr show ?thesis by simp
    qed
  qed
qed

lemma convert_set_Inl_origin:
  "convert_set s acc xs w = Inl e \<Longrightarrow>
     (\<exists>x\<in>set xs. convert s x w = Inl e) \<or> (\<exists>acc' y. set_add s acc' y = Inl e)"
proof (induction xs arbitrary: acc)
  case Nil
  then show ?case by simp
next
  case (Cons a xs)
  show ?case
  proof (cases "convert s a w")
    case (Inl e1)
    with Cons.prems show ?thesis by simp
  next
    case y: (Inr y)
    show ?thesis
    proof (cases "set_add s acc y")
      case (Inl e2)
      with y Cons.prems have "set_add s acc y = Inl e" by simp
      then show ?thesis by blast
    next
      case (Inr acc')
      with y Cons.prems have "convert_set s acc' xs w = Inl e" by simp
      from Cons.IH [OF this] show ?thesis by auto
    qed
  qed
qed

lemma subcall_fails:
  assumes "subcall s obj var y w" and "convert s y w = Inl e"
  shows "\<exists>e'. convert s obj var = Inl e'"
  using assms
proof (induction rule: subcall.induct)
  case (here obj var)
  then show ?case by blast
next
  case (item_root var i k xs x y w)
  then obtain e1 where "convert s x None = Inl e1" by blast
  from convert_items_fail [OF item_root.hyps(2) this]
  obtain e2 where "convert_items s xs None = Inl e2" by blast
  then show ?case by (simp add: convert_array_step1 [OF item_root.hyps(1)])
next
  case (item_field i k xs x f y w)
  then obtain e1 where e1: "convert s x (Some f) = Inl e1" by blast
  show ?case
  proof (cases "k = KSet")
    case True
    from convert_set_fail [OF item_field.hyps(2) e1, of "[]"]
    obtain e2 where "convert_set s [] xs (Some f) = Inl e2" by blast
    with True show ?thesis by (simp add: convert_set_field)
  next
    case False
    from convert_items_fail [OF item_field.hyps(2) e1]
    obtain e2 where "convert_items s xs (Some f) = Inl e2" by blast
    then show ?thesis by (simp add: convert_array_field [OF item_field.hyps(1) False])
  qed
next
  case (field var obj vars v x y w)
  then obtain e1 where "convert s x (Some v) = Inl e1" by blast
  from convert_vars_fail [OF field.hyps(4,5) this]
  obtain e2 where "convert_vars s obj vars = Inl e2" by blast
  then show ?case by (simp add: convert_record [OF field.hyps(3,2)])
next
  case (enum c m v f y w)
  from enum.hyps(2) have "m = False" by simp
  with enum show ?case by (simp add: convert_enum_field)
qed

lemma size_item_less: "x \<in> set xs \<Longrightarrow> size x < size (PArray i k xs)"
  by (induction xs) auto

lemma fail_origin:
  "convert s obj var = Inl e \<Longrightarrow> \<exists>y w. subcall s obj var y w \<and> raises_here s y w e"
proof (induction obj arbitrary: var rule: measure_induct_rule [of size])
  case (less obj)
  show ?case
  proof (cases "var = None \<or> is_model (xml_context s) obj")
    case step1: True
    show ?thesis
    proof (cases "is_array obj")
      case True
      then obtain i k xs where o: "obj = PArray i k xs" by (cases obj) auto
      from step1 o have s1: "var = None \<or> is_model (xml_context s) (PArray i k xs)" by simp
      from less.prems o have "convert_items s xs None = Inl e"
        by (simp add: convert_array_step1 [OF s1] split: sum.splits)
      from convert_items_Inl_origin [OF this] obtain x
        where x: "x \<in> set xs" "convert s x None = Inl e" by blast
      have "size x < size obj" unfolding o using x(1) by (rule size_item_less)
      from less.IH [OF this x(2)] obtain y w
        where yw: "subcall s x None y w" "raises_here s y w e" by blast
      from subcall.item_root [OF s1 x(1) yw(1)] o have "subcall s obj var y w" by simp
      with yw(2) show ?thesis by blast
    next
      case na: False
      show ?thesis
      proof (cases "build (xml_context s) obj")
        case (Inl e')
        with less.prems step1 na have "e' = e"
          by (cases obj) (auto simp: convert.simps(1))
        with Inl step1 na have "raises_here s obj var e"
          by (simp add: raises_here_def)
        then show ?thesis using subcall.here by blast
      next
        case (Inr vars)
        from less.prems have cv: "convert_vars s obj vars = Inl e"
          by (simp add: convert_record [OF Inr na] split: sum.splits)
        from convert_vars_Inl_origin [OF cv] show ?thesis
        proof
          assume "\<exists>v\<in>set vars. getattr obj (name v) = Inl e"
          with Inr step1 na have "raises_here s obj var e"
            by (simp add: raises_here_def)
          then show ?thesis using subcall.here by blast
        next
          assume "\<exists>v\<in>set vars. \<exists>x. getattr obj (name v) = Inr x \<and> convert s x (Some v) = Inl e"
          then obtain v x where vx: "v \<in> set vars" "getattr obj (name v) = Inr x"
            "convert s x (Some v) = Inl e" by blast
          from getattr_size_less [OF vx(2)] have "size x < size obj" .
          from less.IH [OF this vx(3)] obtain y w
            where yw: "subcall s x (Some v) y w" "raises_here s y w e" by blast
          from subcall.field [OF step1 na Inr vx(1,2) yw(1)] yw(2) show ?thesis by blast
        qed
      qed
    qed
  next
    case other: False
    then obtain f where f: "var = Some f" by auto
    from other have nm: "\<not> is_model (xml_context s) obj" by simp
    show ?thesis
    proof (cases obj)
      case (PArray i k xs)
      from nm PArray have nm': "\<not> is_model (xml_context s) (PArray i k xs)" by simp
      have elem: ?thesis if x: "x \<in> set xs" "convert s x (Some f) = Inl e" for x
      proof -
        have "size x < size obj" unfolding PArray using x(1) by (rule size_item_less)
        from less.IH [OF this x(2)] obtain y w
          where yw: "subcall s x (Some f) y w" "raises_here s y w e" by blast
        from subcall.item_field [OF nm' x(1) yw(1)] PArray f
        have "subcall s obj var y w" by simp
        with yw(2) show ?thesis by blast
      qed
      show ?thesis
      proof (cases "k = KSet")
        case True
        with less.prems f PArray have "convert_set s [] xs (Some f) = Inl e"
          by (simp add: convert_set_field split: sum.splits)
        from convert_set_Inl_origin [OF this] show ?thesis
        proof
          assume "\<exists>x\<in>set xs. convert s x (Some f) = Inl e"
          then show ?thesis using elem by blast
        next
          assume "\<exists>acc' y. set_add s acc' y = Inl e"
          with True PArray other have "raises_here s obj var e"
            by (simp add: raises_here_def)
          then show ?thesis using subcall.here by blast
        qed
      next
        case False
        with less.prems f PArray have "convert_items s xs (Some f) = Inl e"
          by (simp add: convert_array_field [OF nm' False] split: sum.splits)
        from convert_items_Inl_origin [OF this] show ?thesis using elem by blast
      qed
    next
      case (PEnum c m v)
      show ?thesis
      proof (cases m)
        case True
        with less.prems f PEnum show ?thesis by (simp add: convert.simps(1))
      next
        case False
        with less.prems f PEnum have c: "convert s v (Some f) = Inl e"
          by (simp add: convert_enum_field)
        from PEnum have "size v < size obj" by simp
        from less.IH [OF this c] obtain y w
          where yw: "subcall s v (Some f) y w" "raises_here s y w e" by blast
        from subcall.enum [of s c m v f y w] False yw(1) PEnum f
        have "subcall s obj var y w" by simp
        with yw(2) show ?thesis by blast
      qed
    next
      case PNone
      with less.prems f other have "raises_here s obj var e"
        by (simp add: raises_here_def convert.simps(1))
      then show ?thesis using subcall.here by blast
    next
      case (PObj c attrs)
      with less.prems f other have "raises_here s obj var e"
        by (simp add: raises_here_def convert.simps(1))
      then show ?thesis using subcall.here by blast
    next
      case (PBool b)
      with less.prems f other show ?thesis by (simp add: convert.simps(1))
    next
      case (PInt n)
      with less.prems f other show ?thesis by (simp add: convert.simps(1))
    next
      case (PFloat x)
      with less.prems f other show ?thesis by (simp add: convert.simps(1))
    next
      case (PStr t)
      with less.prems f other show ?thesis by (simp add: convert.simps(1))
    next
      case (PDict i d)
      with less.prems f other show ?thesis by (simp add: convert.simps(1))
    qed
  qed
qed

lemma convert_unregistered:
  assumes "converter s = registry_serialize reg"
    and "\<not> is_model (xml_context s) (PObj c attrs)"
    and "map_of reg c = None"
  shows "convert s (PObj c attrs) (Some f) = Inl (UnknownTypeError c)"
  using assms by (simp add: convert.simps(1) registry_serialize_def)

lemma write_stream_fail:
  "convert s obj None = Inl e \<Longrightarrow> write_stream s out obj = (out, Some e) \<and> render s obj = Inl e"
  by (simp add: write_stream_def render_def)

text \<open>
  C7, as amended. Let the registry be as the spec describes it, and let the recursion of
  \<open>convert(obj, var)\<close> contain a call on an instance of a class that is no model node
  and has no registered converter, under an enclosing field. Then \<open>convert(obj, var)\<close>
  raises. The error it raises is the one raised in the body of some call of the
  recursion, as it was raised there. When the call is the one of \<open>write\<close> (no enclosing
  field), \<open>write\<close> raises the same error with the stream as it was, and so does
  \<open>render\<close>: the dump factory is never called.
\<close>

theorem unknown_type_propagation:
  assumes "converter s = registry_serialize reg"
    and "subcall s obj var (PObj c attrs) (Some f)"
    and "\<not> is_model (xml_context s) (PObj c attrs)"
    and "map_of reg c = None"
  shows "\<exists>e. convert s obj var = Inl e \<and>
           (\<exists>y w. subcall s obj var y w \<and> raises_here s y w e) \<and>
           (var = None \<longrightarrow> write_stream s out obj = (out, Some e) \<and> render s obj = Inl e)"
proof -
  from convert_unregistered [OF assms(1,3,4)]
  have "convert s (PObj c attrs) (Some f) = Inl (UnknownTypeError c)" .
  from subcall_fails [OF assms(2) this] obtain e where e: "convert s obj var = Inl e" by blast
  from fail_origin [OF e] have "\<exists>y w. subcall s obj var y w \<and> raises_here s y w e" .
  moreover have "var = None \<longrightarrow> write_stream s out obj = (out, Some e) \<and> render s obj = Inl e"
    using e write_stream_fail by blast
  ultimately show ?thesis using e by blast
qed


lemma strict_converter_registry: "strict_converter = registry_serialize []"
proof (intro ext)
  fix v fmt
  show "strict_converter v fmt = registry_serialize [] v fmt"
    by (cases v) (simp_all add: strict_converter_def registry_serialize_def)
qed

theorem unknown_type_propagation_witness:
  "converter demo_serializer = registry_serialize [] \<and>
   subcall demo_serializer (PObj ''Point'' [(''x'', PObj ''Decimal'' []), (''y'', PInt 1)]) None
     (PObj ''Decimal'' []) (Some var_x) \<and>
   \<not> is_model (xml_context demo_serializer) (PObj ''Decimal'' []) \<and>
   map_of ([] :: (string \<times> (pyval \<Rightarrow> string option \<Rightarrow> pyval)) list) ''Decimal'' = None \<and>
   convert demo_serializer (PObj ''Point'' [(''x'', PObj ''Decimal'' []), (''y'', PInt 1)]) None =
     Inl (UnknownTypeError ''Decimal'') \<and>
   write_stream demo_serializer ''[]'' (PObj ''Point'' [(''x'', PObj ''Decimal'' []), (''y'', PInt 1)]) =
     (''[]'', Some (UnknownTypeError ''Decimal'')) \<and>
   render demo_serializer (PObj ''Point'' [(''x'', PObj ''Decimal'' []), (''y'', PInt 1)]) =
     Inl (UnknownTypeError ''Decimal'')"
proof -
  let ?p = "PObj ''Point'' [(''x'', PObj ''Decimal'' []), (''y'', PInt 1)]"
  let ?d = "PObj ''Decimal'' []"
  have r: "converter demo_serializer = registry_serialize []"
    by (simp add: demo_serializer_def strict_converter_registry)
  have b: "build (xml_context demo_serializer) ?p = Inr [var_x, var_y]"
    by (simp add: demo_defs)
  have g: "getattr ?p (name var_x) = Inr ?d"
    by (simp add: demo_defs)
  have sc: "subcall demo_serializer ?p None ?d (Some var_x)"
    by (rule subcall.field [OF _ _ b _ g subcall.here]) simp_all
  have nm: "\<not> is_model (xml_context demo_serializer) ?d"
    by (simp add: demo_defs)
  have u: "map_of ([] :: (string \<times> (pyval \<Rightarrow> string option \<Rightarrow> pyval)) list) ''Decimal'' = None"
    by simp
  have c: "convert demo_serializer ?p None = Inl (UnknownTypeError ''Decimal'')"
    by (simp add: convert.simps(1) demo_defs)
  from unknown_type_propagation [OF r sc nm u, of "''[]''"] obtain e where
    e: "convert demo_serializer ?p None = Inl e"
      "write_stream demo_serializer ''[]'' ?p = (''[]'', Some e)"
      "render demo_serializer ?p = Inl e"
    by blast
  from e(1) c have "e = UnknownTypeError ''Decimal''" by simp
  with r sc nm u c e(2,3) show ?thesis by blast
qed

text \<open>
  C7 fails for a scalar inside an existing map: the map is returned as it is by the third
  branch, its contents are not visited, and \<open>convert\<close> returns although the registry
  has no converter for the scalar.
\<close>

theorem passed_map_counterexample:
  "converter demo_serializer (PObj ''Decimal'' []) None = Inl (UnknownTypeError ''Decimal'') \<and>
   convert demo_serializer
     (PObj ''Point'' [(''x'', PDict (Src 1) [(PStr ''k'', PObj ''Decimal'' [])]), (''y'', PInt 1)])
     None =
     Inr (PDict Fresh
       [(PStr ''x'', PDict (Src 1) [(PStr ''k'', PObj ''Decimal'' [])]), (PStr ''y'', PInt 1)])"
  by (simp add: convert.simps(1) demo_defs)













end
